theory Spec2Isabelle
  imports Complex_Main "HOL-Library.Multiset" "HOL-Library.AList"
begin

section \<open>The review store of City Pulse (utils/reviews.py, app.py)\<close>

text \<open>
  The review store is a single SQLite table \<^verbatim>\<open>reviews\<close> that five Python functions
  read and write, each through a connection of its own that is committed and closed before
  the function returns. The embedding passes the database explicitly: every function takes
  the database and returns its result together with the database it leaves behind.

  What the SQL statements of the source mean is fixed by SQLite and by Python's
  \<^verbatim>\<open>sqlite3\<close> driver; the model writes out the following facts about them.
  \<^item> \<^verbatim>\<open>INTEGER PRIMARY KEY AUTOINCREMENT\<close>: a new row gets the rowid one larger than the
    largest rowid the table has ever held (SQLite keeps it in \<^verbatim>\<open>sqlite_sequence\<close>); once
    that is \<open>2^63 - 1\<close> the insert fails ("database or disk is full").
  \<^item> An integer parameter outside the signed 64-bit range is refused by the driver
    (\<^verbatim>\<open>OverflowError\<close>) before the statement runs.
  \<^item> \<^verbatim>\<open>CURRENT_TIMESTAMP\<close> is the clock read in whole seconds; the text it yields
    (\<^verbatim>\<open>YYYY-MM-DD HH:MM:SS\<close>) orders as the number of seconds does, so \<open>created_at\<close> is
    a natural number here and the clock reading is an argument of \<open>add_review\<close>.
  \<^item> \<^verbatim>\<open>WHERE city = ?\<close> compares text byte by byte (collation BINARY).
  \<^item> \<^verbatim>\<open>ORDER BY created_at DESC\<close> has no second key. SQLite scans the table in rowid
    order and its sorter keeps rows with equal keys in scan order; the model sorts stably.
\<close>

subsection \<open>Data\<close>

type_synonym bytes = "char list"

text \<open>The exceptions that the modelled statements can raise.\<close>

datatype py_error =
    OverflowError
  | NoSuchTable
  | DatabaseFull
  | KeyError int
  | ZeroDivisionError

text \<open>One row of the table \<^verbatim>\<open>reviews\<close>; the fields are its columns, in the order of
  the \<^verbatim>\<open>CREATE TABLE\<close> statement.\<close>

record review_row =
  col_id :: int
  col_city :: string
  col_rating :: int
  col_title :: string
  col_review_text :: string
  col_photo_data :: "bytes option"
  col_photo_filename :: "string option"
  col_created_at :: nat

text \<open>The table with its \<^verbatim>\<open>sqlite_sequence\<close> entry: the rows in rowid order and the largest
  rowid handed out so far (0 before the first insert).\<close>

record reviews_table =
  tbl_rows :: "review_row list"
  tbl_seq :: int

text \<open>The database file \<^verbatim>\<open>reviews.db\<close>: \<open>None\<close> while the table does not exist.\<close>

type_synonym database = "reviews_table option"

text \<open>The dictionary that \<open>get_reviews_for_city\<close> builds for one row; the fields are its
  keys \<^verbatim>\<open>id, rating, title, text, photo_data, photo_filename, created_at\<close>.\<close>

record review =
  rv_id :: int
  rv_rating :: int
  rv_title :: string
  rv_text :: string
  rv_photo_data :: "bytes option"
  rv_photo_filename :: "string option"
  rv_created_at :: nat

type_synonym review_tuple =
  "int \<times> int \<times> string \<times> string \<times> bytes option \<times> string option \<times> nat"

definition INT64_MAX :: int where
  "INT64_MAX = 9223372036854775807"

definition fits_int64 :: "int \<Rightarrow> bool" where
  "fits_int64 n = (- INT64_MAX - 1 \<le> n \<and> n \<le> INT64_MAX)"

definition db_rows :: "database \<Rightarrow> review_row list" where
  "db_rows db = (case db of None \<Rightarrow> [] | Some t \<Rightarrow> tbl_rows t)"

subsection \<open>init_reviews_db\<close>

text \<open>\<^verbatim>\<open>CREATE TABLE IF NOT EXISTS reviews (...)\<close>: creates the empty table when there is
  none and does nothing otherwise.\<close>

definition init_reviews_db :: "database \<Rightarrow> database" where
  "init_reviews_db db =
     (case db of
        None \<Rightarrow> Some \<lparr>tbl_rows = [], tbl_seq = 0\<rparr>
      | Some t \<Rightarrow> Some t)"

subsection \<open>add_review\<close>

definition largest_rowid :: "reviews_table \<Rightarrow> int" where
  "largest_rowid t = foldr max (map col_id (tbl_rows t)) (tbl_seq t)"

text \<open>The \<^verbatim>\<open>INSERT\<close> statement. \<open>now\<close> is the reading of \<^verbatim>\<open>CURRENT_TIMESTAMP\<close> that
  fills the column \<open>created_at\<close>, which the statement does not name.\<close>

definition sql_insert ::
  "nat \<Rightarrow> string \<Rightarrow> int \<Rightarrow> string \<Rightarrow> string \<Rightarrow> bytes option \<Rightarrow> string option
     \<Rightarrow> database \<Rightarrow> py_error + database" where
  "sql_insert now city rating title review_text photo_bytes photo_filename db =
     (case db of
        None \<Rightarrow> Inl NoSuchTable
      | Some t \<Rightarrow>
          if \<not> fits_int64 rating then Inl OverflowError
          else if INT64_MAX \<le> largest_rowid t then Inl DatabaseFull
          else
            let new_id = largest_rowid t + 1 in
            Inr (Some \<lparr>tbl_rows = tbl_rows t @
                        [\<lparr>col_id = new_id, col_city = city, col_rating = rating,
                          col_title = title, col_review_text = review_text,
                          col_photo_data = photo_bytes, col_photo_filename = photo_filename,
                          col_created_at = now\<rparr>],
                      tbl_seq = new_id\<rparr>))"

text \<open>\<open>add_review\<close> returns \<^verbatim>\<open>True\<close>. An exception of the insert leaves the function
  before the commit, so the database is then the one \<open>init_reviews_db\<close> left.\<close>

definition add_review ::
  "nat \<Rightarrow> string \<Rightarrow> int \<Rightarrow> string \<Rightarrow> string \<Rightarrow> bytes option \<Rightarrow> string option
     \<Rightarrow> database \<Rightarrow> (py_error + bool) \<times> database" where
  "add_review now city rating title review_text photo_bytes photo_filename db =
     (let db1 = init_reviews_db db in
      case sql_insert now city rating title review_text photo_bytes photo_filename db1 of
        Inl e \<Rightarrow> (Inl e, db1)
      | Inr db2 \<Rightarrow> (Inr True, db2))"

subsection \<open>get_reviews_for_city\<close>

definition order_by_created_at_desc :: "review_row list \<Rightarrow> review_row list" where
  "order_by_created_at_desc rs = sort_key (\<lambda>r. - int (col_created_at r)) rs"

definition select_columns :: "review_row \<Rightarrow> review_tuple" where
  "select_columns r =
     (col_id r, col_rating r, col_title r, col_review_text r, col_photo_data r,
      col_photo_filename r, col_created_at r)"

definition sql_select_reviews :: "string \<Rightarrow> database \<Rightarrow> py_error + review_tuple list" where
  "sql_select_reviews city db =
     (case db of
        None \<Rightarrow> Inl NoSuchTable
      | Some t \<Rightarrow>
          Inr (map select_columns
                 (order_by_created_at_desc (filter (\<lambda>r. col_city r = city) (tbl_rows t)))))"

text \<open>The loop that turns the fetched tuples into dictionaries, appending to \<open>result\<close>.\<close>

fun build_result :: "review_tuple list \<Rightarrow> review list \<Rightarrow> review list" where
  "build_result [] result = result"
| "build_result ((i, rating, title, txt, photo, fname, created) # reviews) result =
     build_result reviews
       (result @ [\<lparr>rv_id = i, rv_rating = rating, rv_title = title, rv_text = txt,
                   rv_photo_data = photo, rv_photo_filename = fname,
                   rv_created_at = created\<rparr>])"

definition get_reviews_for_city ::
  "string \<Rightarrow> database \<Rightarrow> (py_error + review list) \<times> database" where
  "get_reviews_for_city city db =
     (let db1 = init_reviews_db db in
      case sql_select_reviews city db1 of
        Inl e \<Rightarrow> (Inl e, db1)
      | Inr reviews \<Rightarrow> (Inr (build_result reviews []), db1))"

subsection \<open>get_city_rating_summary\<close>

text \<open>\<^verbatim>\<open>SELECT rating, COUNT(*) ... WHERE city = ? GROUP BY rating ORDER BY rating DESC\<close>:
  one pair for each rating that occurs, largest rating first.\<close>

definition sql_rating_counts :: "string \<Rightarrow> database \<Rightarrow> py_error + (int \<times> nat) list" where
  "sql_rating_counts city db =
     (case db of
        None \<Rightarrow> Inl NoSuchTable
      | Some t \<Rightarrow>
          let ratings = map col_rating (filter (\<lambda>r. col_city r = city) (tbl_rows t)) in
          Inr (map (\<lambda>k. (k, count_list ratings k)) (rev (sort (remdups ratings)))))"

text \<open>The dictionary \<open>summary\<close> is an association list in insertion order; the assignment
  \<^verbatim>\<open>summary[rating] = count\<close> is \<open>AList.update\<close>, which overwrites the value of a key that
  is there and appends a key that is not, as a Python dictionary does.\<close>

fun fill_summary :: "(int \<times> nat) list \<Rightarrow> (int \<times> nat) list \<Rightarrow> (int \<times> nat) list" where
  "fill_summary [] summary = summary"
| "fill_summary ((rating, cnt) # ratings) summary =
     fill_summary ratings (AList.update rating cnt summary)"

definition py_getitem :: "(int \<times> nat) list \<Rightarrow> int \<Rightarrow> py_error + nat" where
  "py_getitem d k = (case map_of d k of None \<Rightarrow> Inl (KeyError k) | Some v \<Rightarrow> Inr v)"

text \<open>\<^verbatim>\<open>sum(r * summary[r] for r in range(1, 6))\<close>, over the list of \<open>r\<close>.\<close>

fun weighted_sum :: "int list \<Rightarrow> (int \<times> nat) list \<Rightarrow> py_error + int" where
  "weighted_sum [] summary = Inr 0"
| "weighted_sum (r # rs) summary =
     (case py_getitem summary r of
        Inl e \<Rightarrow> Inl e
      | Inr c \<Rightarrow>
          (case weighted_sum rs summary of
             Inl e \<Rightarrow> Inl e
           | Inr s \<Rightarrow> Inr (r * int c + s)))"

text \<open>Python's \<^verbatim>\<open>/\<close> on integers. The model keeps the exact quotient as a rational; the
  float that Python returns is that quotient rounded to the nearest double.\<close>

definition py_truediv :: "int \<Rightarrow> int \<Rightarrow> py_error + rat" where
  "py_truediv a b = (if b = 0 then Inl ZeroDivisionError else Inr (of_int a / of_int b))"

definition get_city_rating_summary ::
  "string \<Rightarrow> database \<Rightarrow> (py_error + (int \<times> nat) list \<times> rat \<times> nat) \<times> database" where
  "get_city_rating_summary city db =
     (let db1 = init_reviews_db db in
      case sql_rating_counts city db1 of
        Inl e \<Rightarrow> (Inl e, db1)
      | Inr ratings \<Rightarrow>
          let summary = fill_summary ratings [(5, 0), (4, 0), (3, 0), (2, 0), (1, 0)];
              total = sum_list (map snd summary)
          in
            if total > 0 then
              (case weighted_sum [1, 2, 3, 4, 5] summary of
                 Inl e \<Rightarrow> (Inl e, db1)
               | Inr s \<Rightarrow>
                   (case py_truediv s (int total) of
                      Inl e \<Rightarrow> (Inl e, db1)
                    | Inr average \<Rightarrow> (Inr (summary, average, total), db1)))
            else (Inr (summary, 0, total), db1))"

subsection \<open>delete_review\<close>

definition sql_delete :: "int \<Rightarrow> database \<Rightarrow> py_error + database" where
  "sql_delete review_id db =
     (case db of
        None \<Rightarrow> Inl NoSuchTable
      | Some t \<Rightarrow>
          if \<not> fits_int64 review_id then Inl OverflowError
          else Inr (Some (t\<lparr>tbl_rows := filter (\<lambda>r. col_id r \<noteq> review_id) (tbl_rows t)\<rparr>)))"

definition delete_review :: "int \<Rightarrow> database \<Rightarrow> (py_error + bool) \<times> database" where
  "delete_review review_id db =
     (let db1 = init_reviews_db db in
      case sql_delete review_id db1 of
        Inl e \<Rightarrow> (Inl e, db1)
      | Inr db2 \<Rightarrow> (Inr True, db2))"

subsection \<open>The review form of app.py\<close>

text \<open>The form handler prepares the photo with the Pillow library before it calls
  \<open>add_review\<close>. Pillow is not part of the repository: its three calls are parameters, each
  returning \<open>None\<close> where the library raises an exception. \<open>image_open\<close> is
  \<^verbatim>\<open>Image.open(io.BytesIO(final_photo))\<close>, \<open>thumbnail\<close> is \<^verbatim>\<open>img.thumbnail(max_size,
  Image.Resampling.LANCZOS)\<close> and \<open>save_jpeg\<close> is \<^verbatim>\<open>img.save(.., format='JPEG', quality=..)\<close>
  followed by \<^verbatim>\<open>getvalue()\<close>.\<close>

record 'img pil =
  image_open :: "bytes \<Rightarrow> 'img option"
  thumbnail :: "nat \<times> nat \<Rightarrow> 'img \<Rightarrow> 'img option"
  save_jpeg :: "nat \<Rightarrow> 'img \<Rightarrow> bytes option"

text \<open>The characters that \<^verbatim>\<open>str.strip()\<close> removes, among the characters below 256.\<close>

definition py_isspace :: "char \<Rightarrow> bool" where
  "py_isspace c =
     (let n = (of_char c :: nat)
      in (9 \<le> n \<and> n \<le> 13) \<or> (28 \<le> n \<and> n \<le> 32) \<or> n = 133 \<or> n = 160)"

definition py_strip :: "string \<Rightarrow> string" where
  "py_strip s = rev (dropWhile py_isspace (rev (dropWhile py_isspace s)))"

text \<open>The messages that the handler shows (\<^verbatim>\<open>st.error\<close>, \<^verbatim>\<open>st.warning\<close>,
  \<^verbatim>\<open>st.success\<close>).\<close>

datatype message =
    Error_enter_title
  | Error_write_review
  | Warning_could_not_process_image
  | Success_submitted
  | Error_saving py_error

text \<open>The body of the \<^verbatim>\<open>try\<close> block: \<open>None\<close> when any of the three calls raises, which the
  \<^verbatim>\<open>except\<close> clause answers with a warning, leaving \<open>photo_bytes\<close> at \<^verbatim>\<open>None\<close>.\<close>

definition process_photo :: "'img pil \<Rightarrow> bytes \<Rightarrow> bytes option" where
  "process_photo lib final_photo =
     (case image_open lib final_photo of
        None \<Rightarrow> None
      | Some img \<Rightarrow>
          (case thumbnail lib (800, 800) img of
             None \<Rightarrow> None
           | Some small \<Rightarrow> save_jpeg lib 85 small))"

text \<open>What happens when the submit button is pressed: the messages shown and the database
  afterwards.\<close>

definition submit_review ::
  "'img pil \<Rightarrow> nat \<Rightarrow> string \<Rightarrow> int \<Rightarrow> string \<Rightarrow> string \<Rightarrow> bytes option \<Rightarrow> string option
     \<Rightarrow> database \<Rightarrow> message list \<times> database" where
  "submit_review lib now city star_rating review_title review_text final_photo photo_filename db =
     (if py_strip review_title = [] then ([Error_enter_title], db)
      else if py_strip review_text = [] then ([Error_write_review], db)
      else
        let photo_bytes =
              (case final_photo of None \<Rightarrow> None | Some raw \<Rightarrow> process_photo lib raw);
            warnings =
              (if final_photo \<noteq> None \<and> photo_bytes = None
               then [Warning_could_not_process_image] else [])
        in
          case add_review now city star_rating review_title review_text photo_bytes
                 photo_filename db of
            (Inl e, db') \<Rightarrow> (warnings @ [Error_saving e], db')
          | (Inr ok, db') \<Rightarrow> (warnings @ [Success_submitted], db'))"

subsection \<open>Sequences of operations\<close>

text \<open>A call of \<open>add_review\<close>, with the clock reading at the insert as its first argument, or
  a call of \<open>delete_review\<close>. A caller that catches the exception of a failed call goes on
  with the database that the call left.\<close>

datatype operation =
    AddReview nat string int string string "bytes option" "string option"
  | DeleteReview int

fun apply_op :: "operation \<Rightarrow> database \<Rightarrow> database" where
  "apply_op (AddReview now city rating title txt photo fname) db =
     snd (add_review now city rating title txt photo fname db)"
| "apply_op (DeleteReview i) db = snd (delete_review i db)"

fun run :: "operation list \<Rightarrow> database \<Rightarrow> database" where
  "run [] db = db"
| "run (x # xs) db = run xs (apply_op x db)"

text \<open>The id that an operation assigns: the id of the row that a successful
  \<open>add_review\<close> appends to the table.\<close>

fun assigned_id :: "operation \<Rightarrow> database \<Rightarrow> int option" where
  "assigned_id (AddReview now city rating title txt photo fname) db =
     (case add_review now city rating title txt photo fname db of
        (Inl e, db') \<Rightarrow> None
      | (Inr ok, db') \<Rightarrow> Some (col_id (last (db_rows db'))))"
| "assigned_id (DeleteReview i) db = None"

fun assigned_ids :: "operation list \<Rightarrow> database \<Rightarrow> int list" where
  "assigned_ids [] db = []"
| "assigned_ids (x # xs) db =
     (case assigned_id x db of None \<Rightarrow> [] | Some i \<Rightarrow> [i]) @ assigned_ids xs (apply_op x db)"

text \<open>The arguments of one \<open>add_review\<close> call apart from the city: the clock reading, the
  rating, the title, the text, the photo and its file name.\<close>

type_synonym review_args = "nat \<times> int \<times> string \<times> string \<times> bytes option \<times> string option"

definition add_op :: "string \<Rightarrow> review_args \<Rightarrow> operation" where
  "add_op city a =
     (case a of (now, rating, title, txt, photo, fname) \<Rightarrow>
        AddReview now city rating title txt photo fname)"

definition args_rating :: "review_args \<Rightarrow> int" where
  "args_rating a = fst (snd a)"

subsection \<open>Vocabulary of the properties\<close>

definition db_ids :: "database \<Rightarrow> int list" where
  "db_ids db = map col_id (db_rows db)"

text \<open>The largest rowid recorded for the table (0 while there is no table).\<close>

definition db_seq :: "database \<Rightarrow> int" where
  "db_seq db = (case db of None \<Rightarrow> 0 | Some t \<Rightarrow> tbl_seq t)"

definition db_largest_rowid :: "database \<Rightarrow> int" where
  "db_largest_rowid db = (case db of None \<Rightarrow> 0 | Some t \<Rightarrow> largest_rowid t)"

text \<open>What the primary key and \<^verbatim>\<open>sqlite_sequence\<close> guarantee of a table that only SQLite
  has written: ids are unique and none exceeds the recorded largest rowid.\<close>

definition db_ok :: "database \<Rightarrow> bool" where
  "db_ok db =
     (case db of
        None \<Rightarrow> True
      | Some t \<Rightarrow> distinct (map col_id (tbl_rows t)) \<and> list_all (\<lambda>r. col_id r \<le> tbl_seq t) (tbl_rows t))"

definition matching :: "string \<Rightarrow> database \<Rightarrow> review_row list" where
  "matching city db = filter (\<lambda>r. col_city r = city) (db_rows db)"

text \<open>The ratings of the rows of a city, in table order.\<close>

definition ratings_of :: "string \<Rightarrow> database \<Rightarrow> int list" where
  "ratings_of city db = map col_rating (matching city db)"

definition review_of :: "review_row \<Rightarrow> review" where
  "review_of r =
     \<lparr>rv_id = col_id r, rv_rating = col_rating r, rv_title = col_title r,
      rv_text = col_review_text r, rv_photo_data = col_photo_data r,
      rv_photo_filename = col_photo_filename r, rv_created_at = col_created_at r\<rparr>"

definition listed_args :: "review \<Rightarrow> review_args" where
  "listed_args r =
     (rv_created_at r, rv_rating r, rv_title r, rv_text r, rv_photo_data r,
      rv_photo_filename r)"

text \<open>The row that the \<^verbatim>\<open>INSERT\<close> statement writes.\<close>

definition new_row ::
  "int \<Rightarrow> nat \<Rightarrow> string \<Rightarrow> int \<Rightarrow> string \<Rightarrow> string \<Rightarrow> bytes option \<Rightarrow> string option \<Rightarrow> review_row" where
  "new_row i now city rating title txt photo fname =
     \<lparr>col_id = i, col_city = city, col_rating = rating, col_title = title,
      col_review_text = txt, col_photo_data = photo, col_photo_filename = fname,
      col_created_at = now\<rparr>"

text \<open>The dictionary \<open>summary\<close> that \<open>get_city_rating_summary\<close> builds from the ratings of the
  matching rows.\<close>

definition summary_of :: "int list \<Rightarrow> (int \<times> nat) list" where
  "summary_of rs =
     fill_summary (map (\<lambda>k. (k, count_list rs k)) (rev (sort (remdups rs))))
       [(5, 0), (4, 0), (3, 0), (2, 0), (1, 0)]"

text \<open>A stored row is visible when the listing of its city shows it and the summary of its
  city counts it: the count of its rating and the total are positive.\<close>

definition visible :: "review_row \<Rightarrow> database \<Rightarrow> bool" where
  "visible r db =
     ((case fst (get_reviews_for_city (col_city r) db) of
         Inl e \<Rightarrow> False
       | Inr rs \<Rightarrow> review_of r \<in> set rs) \<and>
      (case fst (get_city_rating_summary (col_city r) db) of
         Inl e \<Rightarrow> False
       | Inr (summary, average, n_total) \<Rightarrow>
           (case map_of summary (col_rating r) of None \<Rightarrow> False | Some n \<Rightarrow> 0 < n) \<and>
           0 < n_total))"

subsection \<open>Example stores\<close>

text \<open>Four reviews of Pune with the ratings 5, 5, 4 and 3, and one of Goa.\<close>

definition pune_db :: database where
  "pune_db =
     run [AddReview 100 ''Pune'' 5 ''Great'' ''Loved it'' None None,
          AddReview 160 ''Pune'' 5 ''Again'' ''Still good'' None None,
          AddReview 220 ''Goa'' 2 ''Meh'' ''Crowded'' None None,
          AddReview 300 ''Pune'' 4 ''Nice'' ''Good food'' None None,
          AddReview 360 ''Pune'' 3 ''Fine'' ''Average'' None None] None"

text \<open>One review, stored under the lower-case city name.\<close>

definition mumbai_db :: database where
  "mumbai_db = run [AddReview 100 ''mumbai'' 4 ''Busy'' ''Lively city'' None None] None"



text \<open>Three reviews of Pune, the first two written within the same second and the third
  with an earlier clock reading.\<close>

definition tie_db :: database where
  "tie_db =
     run [AddReview 100 ''Pune'' 5 ''First'' ''a'' None None,
          AddReview 100 ''Pune'' 4 ''Second'' ''b'' None None,
          AddReview 50 ''Pune'' 3 ''Third'' ''c'' None None] None"

definition add_delete_ops :: "operation list" where
  "add_delete_ops =
     [AddReview 100 ''Pune'' 5 ''Great'' ''Loved it'' None None,
      AddReview 160 ''Pune'' 4 ''Nice'' ''Good food'' None None,
      DeleteReview 2,
      AddReview 220 ''Goa'' 3 ''Fine'' ''Average'' None None]"

text \<open>A stand-in for Pillow that decodes only data starting with the two bytes \<^verbatim>\<open>BM\<close>.\<close>

definition bitmap_only :: "bytes pil" where
  "bitmap_only =
     \<lparr>image_open = (\<lambda>b. if take 2 b = ''BM'' then Some b else None),
      thumbnail = (\<lambda>size img. Some img),
      save_jpeg = (\<lambda>quality img. Some img)\<rparr>"

section \<open>Basic facts\<close>

lemma init_reviews_db_idem: "init_reviews_db (init_reviews_db db) = init_reviews_db db"
  by (simp add: init_reviews_db_def split: option.splits)

lemma init_reviews_db_Some: "init_reviews_db (Some t) = Some t"
  by (simp add: init_reviews_db_def)

lemma init_reviews_db_None: "init_reviews_db None = Some \<lparr>tbl_rows = [], tbl_seq = 0\<rparr>"
  by (simp add: init_reviews_db_def)

lemma db_rows_init: "db_rows (init_reviews_db db) = db_rows db"
  by (simp add: init_reviews_db_def db_rows_def split: option.splits)

lemma init_reviews_db_eq:
  "init_reviews_db db = Some \<lparr>tbl_rows = db_rows db, tbl_seq = (case db of None \<Rightarrow> 0 | Some t \<Rightarrow> tbl_seq t)\<rparr>"
  by (simp add: init_reviews_db_def db_rows_def split: option.splits)

lemma build_result_append:
  "build_result (map select_columns rs) acc = acc @ map review_of rs"
  by (induction rs arbitrary: acc) (simp_all add: select_columns_def review_of_def)

lemma get_reviews_for_city_eq:
  "get_reviews_for_city city db =
     (Inr (map review_of (order_by_created_at_desc (matching city db))), init_reviews_db db)"
  by (cases db)
     (simp_all add: get_reviews_for_city_def sql_select_reviews_def init_reviews_db_def
        build_result_append matching_def db_rows_def)

subsection \<open>The summary as a function of the ratings\<close>

lemma map_of_fill_summary:
  "map_of (fill_summary (map (\<lambda>k. (k, f k)) ks) s) k =
     (if k \<in> set ks then Some (f k) else map_of s k)"
  by (induction ks arbitrary: s) (auto simp: update_conv')

lemma keys_fill_summary:
  "fst ` set (fill_summary gs s) = fst ` set gs \<union> fst ` set s"
  by (induction gs s rule: fill_summary.induct) (auto simp: dom_update)

lemma distinct_fill_summary:
  "distinct (map fst s) \<Longrightarrow> distinct (map fst (fill_summary gs s))"
  by (induction gs s rule: fill_summary.induct) (auto simp: distinct_update)

lemma sum_list_values:
  "distinct (map fst al) \<Longrightarrow> sum_list (map snd al) = (\<Sum>k\<in>set (map fst al). the (map_of al k))"
proof (induction al)
  case Nil
  then show ?case by simp
next
  case (Cons p al)
  obtain k v where p: "p = (k, v)" by (cases p)
  from Cons.prems p have notin: "k \<notin> fst ` set al" and d: "distinct (map fst al)" by auto
  have "(\<Sum>x\<in>fst ` set al. the (map_of ((k, v) # al) x)) = (\<Sum>x\<in>fst ` set al. the (map_of al x))"
    using notin by (intro sum.cong) auto
  with Cons.IH[OF d] notin p show ?case by simp
qed

lemma map_of_summary_of:
  "map_of (summary_of rs) k =
     (if k \<in> {1, 2, 3, 4, 5} \<or> k \<in> set rs then Some (count_list rs k) else None)"
  by (auto simp: summary_of_def map_of_fill_summary count_list_0_iff)

lemma keys_summary_of: "fst ` set (summary_of rs) = {1, 2, 3, 4, 5} \<union> set rs"
  by (auto simp: summary_of_def keys_fill_summary image_image)

lemma distinct_summary_of: "distinct (map fst (summary_of rs))"
  unfolding summary_of_def by (rule distinct_fill_summary) simp

lemma total_summary_of: "sum_list (map snd (summary_of rs)) = length rs"
proof -
  have "sum_list (map snd (summary_of rs)) =
          (\<Sum>k\<in>{1, 2, 3, 4, 5} \<union> set rs. the (map_of (summary_of rs) k))"
    using sum_list_values[OF distinct_summary_of, of rs] by (simp add: keys_summary_of)
  also have "\<dots> = (\<Sum>k\<in>{1, 2, 3, 4, 5} \<union> set rs. count_list rs k)"
    by (intro sum.cong refl) (auto simp: map_of_summary_of)
  also have "\<dots> = length rs"
    by (rule sum_count_set) auto
  finally show ?thesis .
qed

lemma py_getitem_summary_of:
  "k \<in> {1, 2, 3, 4, 5} \<Longrightarrow> py_getitem (summary_of rs) k = Inr (count_list rs k)"
  by (simp add: py_getitem_def map_of_summary_of)

lemma weighted_sum_summary_of:
  "weighted_sum [1, 2, 3, 4, 5] (summary_of rs) =
     Inr (\<Sum>r\<leftarrow>[1, 2, 3, 4, 5]. r * int (count_list rs r))"
  by (simp add: py_getitem_summary_of)

lemma sql_rating_counts_eq:
  "sql_rating_counts city (init_reviews_db db) =
     Inr (map (\<lambda>k. (k, count_list (ratings_of city db) k))
            (rev (sort (remdups (ratings_of city db)))))"
  by (cases db)
     (simp_all add: sql_rating_counts_def init_reviews_db_def ratings_of_def matching_def
        db_rows_def Let_def)

lemma get_city_rating_summary_eq:
  "get_city_rating_summary city db =
     (Inr (summary_of (ratings_of city db),
           (if ratings_of city db = [] then 0
            else of_int (\<Sum>r\<leftarrow>[1, 2, 3, 4, 5]. r * int (count_list (ratings_of city db) r)) /
                 of_nat (length (ratings_of city db))),
           length (ratings_of city db)),
      init_reviews_db db)"
proof -
  let ?rs = "ratings_of city db"
  have s: "fill_summary (map (\<lambda>k. (k, count_list ?rs k)) (rev (sort (remdups ?rs))))
             [(5, 0), (4, 0), (3, 0), (2, 0), (1, 0)] = summary_of ?rs"
    by (simp add: summary_of_def)
  show ?thesis
    unfolding get_city_rating_summary_def Let_def sql_rating_counts_eq sum.case s
      total_summary_of weighted_sum_summary_of
    by (simp add: py_truediv_def)
qed


subsection \<open>The order of the listing\<close>

lemma insort_key_at_end:
  "\<forall>y\<in>set ys. f y < f x \<Longrightarrow> insort_key f x ys = ys @ [x]"
  by (induction ys) auto

lemma order_by_created_at_desc_increasing:
  "sorted_wrt (<) (map col_created_at rs) \<Longrightarrow> order_by_created_at_desc rs = rev rs"
proof (induction rs)
  case Nil
  then show ?case by (simp add: order_by_created_at_desc_def)
next
  case (Cons r rs)
  then have later: "\<forall>y\<in>set rs. col_created_at r < col_created_at y"
    and rest: "sorted_wrt (<) (map col_created_at rs)"
    by auto
  from Cons.IH[OF rest] have ih: "sort_key (\<lambda>r. - int (col_created_at r)) rs = rev rs"
    by (simp add: order_by_created_at_desc_def)
  have "insort_key (\<lambda>r. - int (col_created_at r)) r (rev rs) = rev rs @ [r]"
    by (rule insort_key_at_end) (use later in auto)
  with ih show ?case by (simp add: order_by_created_at_desc_def)
qed

lemma mset_order_by_created_at_desc: "mset (order_by_created_at_desc rs) = mset rs"
  by (simp add: order_by_created_at_desc_def)

lemma set_order_by_created_at_desc: "set (order_by_created_at_desc rs) = set rs"
  by (simp add: order_by_created_at_desc_def)

lemma descending_order_by_created_at_desc:
  "sorted_wrt (\<lambda>a b. col_created_at b \<le> col_created_at a) (order_by_created_at_desc rs)"
proof -
  have "sorted (map (\<lambda>r. - int (col_created_at r)) (order_by_created_at_desc rs))"
    unfolding order_by_created_at_desc_def by (rule sorted_sort_key)
  then show ?thesis by (simp add: sorted_map)
qed

lemma stable_order_by_created_at_desc:
  "filter (\<lambda>r. col_created_at r = t) (order_by_created_at_desc rs) =
     filter (\<lambda>r. col_created_at r = t) rs"
proof -
  have "filter (\<lambda>r. - int (col_created_at r) = - int t) (order_by_created_at_desc rs) =
          filter (\<lambda>r. - int (col_created_at r) = - int t) rs"
    unfolding order_by_created_at_desc_def by (rule sort_key_stable)
  then show ?thesis by simp
qed

lemma created_at_review_of: "rv_created_at (review_of r) = col_created_at r"
  by (simp add: review_of_def)

lemma listing_general:
  "\<exists>rs. get_reviews_for_city city db = (Inr rs, init_reviews_db db) \<and>
       mset rs = mset (map review_of (matching city db)) \<and>
       sorted_wrt (\<lambda>a b. rv_created_at b \<le> rv_created_at a) rs \<and>
       (\<forall>t. filter (\<lambda>r. rv_created_at r = t) rs =
             map review_of (filter (\<lambda>r. col_created_at r = t) (matching city db))) \<and>
       (sorted_wrt (<) (map col_created_at (matching city db)) \<longrightarrow>
          rs = rev (map review_of (matching city db)))"
  unfolding get_reviews_for_city_eq
  by (simp add: mset_order_by_created_at_desc sorted_wrt_map created_at_review_of
      descending_order_by_created_at_desc filter_map comp_def
      stable_order_by_created_at_desc order_by_created_at_desc_increasing rev_map)

subsection \<open>What add_review and delete_review do to the rows\<close>

lemma init_reviews_db_rows_seq:
  "init_reviews_db db = Some \<lparr>tbl_rows = db_rows db, tbl_seq = db_seq db\<rparr>"
  by (simp add: init_reviews_db_def db_rows_def db_seq_def split: option.splits)

lemma largest_rowid_init:
  "largest_rowid \<lparr>tbl_rows = db_rows db, tbl_seq = db_seq db\<rparr> = db_largest_rowid db"
  by (simp add: largest_rowid_def db_largest_rowid_def db_rows_def db_seq_def split: option.splits)

lemma foldr_max_ge_start: "(a::int) \<le> foldr max xs a"
  by (induction xs) auto

lemma foldr_max_ge_elem: "(x::int) \<in> set xs \<Longrightarrow> x \<le> foldr max xs a"
  by (induction xs) auto

lemma foldr_max_bounded: "\<forall>x\<in>set xs. x \<le> a \<Longrightarrow> foldr max xs a = (a::int)"
  by (induction xs) auto

lemma db_seq_le_largest: "db_seq db \<le> db_largest_rowid db"
  by (simp add: db_seq_def db_largest_rowid_def largest_rowid_def foldr_max_ge_start
      split: option.splits)

lemma db_ids_le_largest: "i \<in> set (db_ids db) \<Longrightarrow> i \<le> db_largest_rowid db"
  by (auto simp: db_ids_def db_rows_def db_largest_rowid_def largest_rowid_def
      intro!: foldr_max_ge_elem split: option.splits)

lemma db_ok_largest: "db_ok db \<Longrightarrow> db_largest_rowid db = db_seq db"
  by (auto simp: db_ok_def db_largest_rowid_def db_seq_def largest_rowid_def list_all_iff
      intro!: foldr_max_bounded split: option.splits)

lemma add_review_success:
  assumes "fits_int64 rating" and "db_largest_rowid db < INT64_MAX"
  shows "add_review now city rating title txt photo fname db =
           (Inr True,
            Some \<lparr>tbl_rows = db_rows db @
                     [new_row (db_largest_rowid db + 1) now city rating title txt photo fname],
                  tbl_seq = db_largest_rowid db + 1\<rparr>)"
  using assms
  by (simp add: add_review_def init_reviews_db_rows_seq sql_insert_def largest_rowid_init
      new_row_def Let_def)

lemma add_review_failure:
  assumes "\<not> (fits_int64 rating \<and> db_largest_rowid db < INT64_MAX)"
  shows "add_review now city rating title txt photo fname db =
           (Inl (if \<not> fits_int64 rating then OverflowError else DatabaseFull),
            init_reviews_db db)"
  using assms
  by (auto simp: add_review_def init_reviews_db_rows_seq sql_insert_def largest_rowid_init
      Let_def)

lemma delete_review_success:
  assumes "fits_int64 review_id"
  shows "delete_review review_id db =
           (Inr True,
            Some \<lparr>tbl_rows = filter (\<lambda>r. col_id r \<noteq> review_id) (db_rows db),
                  tbl_seq = db_seq db\<rparr>)"
  using assms
  by (simp add: delete_review_def init_reviews_db_rows_seq sql_delete_def)

lemma delete_review_failure:
  assumes "\<not> fits_int64 review_id"
  shows "delete_review review_id db = (Inl OverflowError, init_reviews_db db)"
  using assms
  by (simp add: delete_review_def init_reviews_db_rows_seq sql_delete_def)

lemma db_rows_Some [simp]: "db_rows (Some t) = tbl_rows t"
  by (simp add: db_rows_def)

lemma db_seq_Some [simp]: "db_seq (Some t) = tbl_seq t"
  by (simp add: db_seq_def)

lemma filter_absent_id:
  "review_id \<notin> set (db_ids db) \<Longrightarrow> filter (\<lambda>r. col_id r \<noteq> review_id) (db_rows db) = db_rows db"
  by (auto simp: db_ids_def filter_id_conv)

subsection \<open>Evaluation on the example stores\<close>

lemmas eval_defs =
  add_review_def delete_review_def init_reviews_db_def sql_insert_def sql_delete_def
  largest_rowid_def fits_int64_def INT64_MAX_def Let_def

lemma pune_db_rows:
  "pune_db = Some \<lparr>tbl_rows =
      [new_row 1 100 ''Pune'' 5 ''Great'' ''Loved it'' None None,
       new_row 2 160 ''Pune'' 5 ''Again'' ''Still good'' None None,
       new_row 3 220 ''Goa'' 2 ''Meh'' ''Crowded'' None None,
       new_row 4 300 ''Pune'' 4 ''Nice'' ''Good food'' None None,
       new_row 5 360 ''Pune'' 3 ''Fine'' ''Average'' None None], tbl_seq = 5\<rparr>"
  by (simp add: pune_db_def eval_defs new_row_def)

subsection \<open>Ratings between 1 and 5\<close>





section \<open>The claims\<close>

subsection \<open>The rating summary\<close>



subsection \<open>Further example stores\<close>

lemma mumbai_db_rows:
  "mumbai_db = Some \<lparr>tbl_rows = [new_row 1 100 ''mumbai'' 4 ''Busy'' ''Lively city'' None None],
                      tbl_seq = 1\<rparr>"
  by (simp add: mumbai_db_def eval_defs new_row_def)



lemmas summary_eval_defs =
  get_city_rating_summary_def sql_rating_counts_def init_reviews_db_def py_getitem_def
  py_truediv_def Let_def new_row_def

lemmas listing_eval_defs =
  get_reviews_for_city_def sql_select_reviews_def init_reviews_db_def
  order_by_created_at_desc_def select_columns_def new_row_def

subsection \<open>Repeated initialisation\<close>

lemma funpow_init_reviews_db:
  "1 \<le> N \<Longrightarrow> (init_reviews_db ^^ N) db = init_reviews_db db"
proof (induction N)
  case 0
  then show ?case by simp
next
  case (Suc N)
  show ?case
  proof (cases "N = 0")
    case True
    then show ?thesis by simp
  next
    case False
    with Suc.IH have "(init_reviews_db ^^ N) db = init_reviews_db db" by simp
    then show ?thesis by (simp add: init_reviews_db_idem)
  qed
qed

text \<open>
  C8. \<open>init_reviews_db\<close> is a total function of the database, so a call cannot raise.
  Calling it \<open>N \<ge> 1\<close> times gives the database that one call gives; the table then exists
  (a query on it succeeds), its rows and its recorded largest rowid are those before the
  calls, and a database that already had the table is returned as it was.
\<close>

theorem init_reviews_db_idempotent:
  "1 \<le> N \<Longrightarrow>
     (init_reviews_db ^^ N) db = init_reviews_db db \<and>
     (init_reviews_db ^^ N) db \<noteq> None \<and>
     db_rows ((init_reviews_db ^^ N) db) = db_rows db \<and>
     db_seq ((init_reviews_db ^^ N) db) = db_seq db \<and>
     (\<forall>t. db = Some t \<longrightarrow> (init_reviews_db ^^ N) db = Some t) \<and>
     (\<forall>city. \<exists>reviews. sql_select_reviews city ((init_reviews_db ^^ N) db) = Inr reviews)"
  by (simp add: funpow_init_reviews_db init_reviews_db_rows_seq sql_select_reviews_def
      init_reviews_db_Some)

theorem init_reviews_db_idempotent_witness:
  "(1::nat) \<le> 3 \<and> (init_reviews_db ^^ 3) pune_db = pune_db \<and> pune_db \<noteq> None \<and>
   (init_reviews_db ^^ 3) None = Some \<lparr>tbl_rows = [], tbl_seq = 0\<rparr>"
  using init_reviews_db_idempotent [of 3 pune_db] init_reviews_db_idempotent [of 3 None]
  by (simp add: pune_db_rows init_reviews_db_def)

subsection \<open>Deleting a review\<close>

text \<open>
  C9, as the claim states it, fails: an id outside the signed 64-bit range is in no store,
  and \<open>delete_review\<close> raises \<^verbatim>\<open>OverflowError\<close> for it.
\<close>

theorem delete_review_counterexample:
  "9223372036854775808 \<notin> set (db_ids pune_db) \<and>
   delete_review 9223372036854775808 pune_db = (Inl OverflowError, pune_db)"
  by (simp add: pune_db_rows db_ids_def new_row_def delete_review_def sql_delete_def
      init_reviews_db_def fits_int64_def INT64_MAX_def)

lemma split_at_id:
  assumes "distinct (map col_id rows)" and "i \<in> set (map col_id rows)"
  shows "\<exists>before r after. rows = before @ r # after \<and> col_id r = i \<and>
           filter (\<lambda>x. col_id x \<noteq> i) rows = before @ after"
proof -
  from assms(2) obtain r where r: "r \<in> set rows" "col_id r = i" by auto
  then obtain before after where sp: "rows = before @ r # after"
    by (auto dest: split_list)
  with assms(1) r(2) have "\<forall>x\<in>set before. col_id x \<noteq> i" "\<forall>x\<in>set after. col_id x \<noteq> i"
    by (auto simp: image_iff)
  then have "filter (\<lambda>x. col_id x \<noteq> i) rows = before @ after"
    using sp r(2) by (simp add: filter_id_conv)
  with sp r(2) show ?thesis by blast
qed

text \<open>
  C9, amended. For every id in the signed 64-bit range, \<open>delete_review\<close> returns
  \<^verbatim>\<open>True\<close> and leaves the rows whose id is different, in their order, with the recorded
  largest rowid unchanged. When no row has the id, the database is the one that
  \<open>init_reviews_db\<close> leaves, and every listing and every summary is what it was. When a row
  has the id (ids being unique), exactly that row is gone.
\<close>

theorem delete_review_effect:
  assumes "fits_int64 review_id"
  shows "\<exists>db'. delete_review review_id db = (Inr True, db') \<and>
     db_rows db' = filter (\<lambda>r. col_id r \<noteq> review_id) (db_rows db) \<and>
     db_seq db' = db_seq db \<and>
     (review_id \<notin> set (db_ids db) \<longrightarrow>
        db' = init_reviews_db db \<and> db_rows db' = db_rows db \<and>
        (\<forall>city. get_reviews_for_city city db' = get_reviews_for_city city db \<and>
                get_city_rating_summary city db' = get_city_rating_summary city db)) \<and>
     (review_id \<in> set (db_ids db) \<and> db_ok db \<longrightarrow>
        (\<exists>before r after. db_rows db = before @ r # after \<and> col_id r = review_id \<and>
           db_rows db' = before @ after))"
proof -
  let ?db' = "Some \<lparr>tbl_rows = filter (\<lambda>r. col_id r \<noteq> review_id) (db_rows db),
                    tbl_seq = db_seq db\<rparr>"
  have ret: "delete_review review_id db = (Inr True, ?db')"
    by (rule delete_review_success [OF assms])
  have absent: "?db' = init_reviews_db db \<and> db_rows ?db' = db_rows db \<and>
        (\<forall>city. get_reviews_for_city city ?db' = get_reviews_for_city city db \<and>
                get_city_rating_summary city ?db' = get_city_rating_summary city db)"
    if "review_id \<notin> set (db_ids db)"
  proof -
    from that have "?db' = init_reviews_db db"
      by (simp add: filter_absent_id init_reviews_db_rows_seq)
    then show ?thesis
      by (simp add: db_rows_init get_reviews_for_city_eq get_city_rating_summary_eq
          init_reviews_db_idem matching_def ratings_of_def)
  qed
  have present: "\<exists>before r after. db_rows db = before @ r # after \<and> col_id r = review_id \<and>
           db_rows ?db' = before @ after"
    if "review_id \<in> set (db_ids db)" and "db_ok db"
  proof -
    from that(2) have "distinct (map col_id (db_rows db))"
      by (simp add: db_ok_def db_rows_def split: option.splits)
    from split_at_id [OF this] that(1) show ?thesis
      by (simp add: db_ids_def)
  qed
  have rows: "db_rows ?db' = filter (\<lambda>r. col_id r \<noteq> review_id) (db_rows db)"
    and seq: "db_seq ?db' = db_seq db"
    by simp_all
  show ?thesis
    apply (rule exI [of _ ?db'])
    apply (intro conjI)
        apply (rule ret)
       apply (rule rows)
      apply (rule seq)
     apply (rule impI, erule absent)
    apply (rule impI, erule conjE, erule (1) present)
    done
qed

theorem delete_review_effect_witness:
  "fits_int64 42 \<and> 42 \<notin> set (db_ids pune_db) \<and>
   delete_review 42 pune_db = (Inr True, pune_db) \<and>
   fits_int64 3 \<and> 3 \<in> set (db_ids pune_db) \<and> db_ok pune_db \<and>
   db_ids (snd (delete_review 3 pune_db)) = [1, 2, 4, 5]"
  using delete_review_effect [of 42 pune_db] delete_review_effect [of 3 pune_db]
  by (simp add: pune_db_rows db_ids_def db_ok_def new_row_def delete_review_def sql_delete_def
      init_reviews_db_def fits_int64_def INT64_MAX_def)

subsection \<open>Matching the city\<close>

lemma count_list_mset: "mset xs = mset ys \<Longrightarrow> count_list xs k = count_list ys k"
  by (metis count_mset)

lemma ratings_of_listing:
  "mset rs = mset (map review_of (matching c db)) \<Longrightarrow>
     mset (map rv_rating rs) = mset (ratings_of c db)"
proof -
  assume "mset rs = mset (map review_of (matching c db))"
  then have "mset (map rv_rating rs) = mset (map rv_rating (map review_of (matching c db)))"
    by (metis mset_map)
  also have "map rv_rating (map review_of (matching c db)) = ratings_of c db"
    by (simp add: ratings_of_def review_of_def)
  finally show ?thesis .
qed

lemma distinct_ids_same_row:
  assumes "distinct (map col_id rows)" "r \<in> set rows" "r' \<in> set rows" "col_id r = col_id r'"
  shows "r = r'"
  using assms by (meson distinct_map inj_onD)

text \<open>
  C6. For every state of the store and every queried city \<open>c\<close>, the listing consists of
  exactly the rows whose city is equal to \<open>c\<close> as a string, each once, and the summary is
  computed from the ratings of exactly the listed reviews: \<open>total\<close> is their number and each
  count is the number of listed reviews with that rating. With unique ids, a stored row is
  listed if and only if its city equals \<open>c\<close>.
\<close>

theorem city_match_exact:
  "\<exists>rs summary average total.
     get_reviews_for_city c db = (Inr rs, init_reviews_db db) \<and>
     get_city_rating_summary c db = (Inr (summary, average, total), init_reviews_db db) \<and>
     mset rs = mset (map review_of (filter (\<lambda>r. col_city r = c) (db_rows db))) \<and>
     total = length rs \<and>
     (\<forall>k. map_of summary k =
        (if k \<in> {1, 2, 3, 4, 5} \<or> k \<in> rv_rating ` set rs
         then Some (count_list (map rv_rating rs) k) else None)) \<and>
     (db_ok db \<longrightarrow>
        (\<forall>r\<in>set (db_rows db). (col_id r \<in> rv_id ` set rs) = (col_city r = c)))"
proof -
  let ?rs = "map review_of (order_by_created_at_desc (matching c db))"
  have m: "mset ?rs = mset (map review_of (matching c db))"
    by (simp add: mset_order_by_created_at_desc)
  have rats: "mset (map rv_rating ?rs) = mset (ratings_of c db)"
    by (rule ratings_of_listing [OF m])
  have cnt: "count_list (map rv_rating ?rs) k = count_list (ratings_of c db) k" for k
    by (rule count_list_mset [OF rats])
  have st: "rv_rating ` set ?rs = set (ratings_of c db)"
    using rats by (metis mset_eq_setD list.set_map)
  have len: "length (ratings_of c db) = length ?rs"
    by (metis m size_mset length_map ratings_of_def)
  have ids: "(col_id r \<in> rv_id ` set ?rs) = (col_city r = c)"
    if ok: "db_ok db" and r: "r \<in> set (db_rows db)" for r
  proof -
    from ok have d: "distinct (map col_id (db_rows db))"
      by (simp add: db_ok_def db_rows_def split: option.splits)
    have "rv_id ` set ?rs = col_id ` set (matching c db)"
      by (auto simp: set_order_by_created_at_desc review_of_def image_iff)
    moreover have "(col_id r \<in> col_id ` set (matching c db)) = (col_city r = c)"
    proof
      assume "col_id r \<in> col_id ` set (matching c db)"
      then obtain r' where r': "r' \<in> set (db_rows db)" "col_city r' = c" "col_id r = col_id r'"
        by (auto simp: matching_def)
      with distinct_ids_same_row [OF d r r'(1)] show "col_city r = c" by simp
    next
      assume "col_city r = c"
      with r show "col_id r \<in> col_id ` set (matching c db)" by (simp add: matching_def)
    qed
    ultimately show ?thesis by simp
  qed
  show ?thesis
    unfolding get_reviews_for_city_eq get_city_rating_summary_eq
    apply (intro exI conjI)
         apply (rule refl)
        apply (rule refl)
       apply (simp add: mset_order_by_created_at_desc matching_def)
      apply (rule len)
     apply (simp only: map_of_summary_of cnt st)
     apply simp
    apply (rule impI, rule ballI, erule (1) ids)
    done
qed

theorem city_match_exact_witness:
  "get_reviews_for_city ''Mumbai'' mumbai_db = (Inr [], mumbai_db) \<and>
   get_city_rating_summary ''Mumbai'' mumbai_db =
     (Inr ([(5, 0), (4, 0), (3, 0), (2, 0), (1, 0)], 0, 0), mumbai_db) \<and>
   get_reviews_for_city ''mumbai'' mumbai_db =
     (Inr [\<lparr>rv_id = 1, rv_rating = 4, rv_title = ''Busy'', rv_text = ''Lively city'',
            rv_photo_data = None, rv_photo_filename = None, rv_created_at = 100\<rparr>], mumbai_db) \<and>
   get_city_rating_summary ''mumbai'' mumbai_db =
     (Inr ([(5, 0), (4, 1), (3, 0), (2, 0), (1, 0)], 4, 1), mumbai_db) \<and>
   db_ok mumbai_db"
  using city_match_exact [of "''Mumbai''" mumbai_db] city_match_exact [of "''mumbai''" mumbai_db]
  by (simp add: mumbai_db_rows summary_eval_defs listing_eval_defs db_ok_def)

subsection \<open>Ratings outside 1 to 5\<close>






subsection \<open>Listing after a sequence of calls\<close>

lemma tie_db_rows:
  "tie_db = Some \<lparr>tbl_rows =
      [new_row 1 100 ''Pune'' 5 ''First'' ''a'' None None,
       new_row 2 100 ''Pune'' 4 ''Second'' ''b'' None None,
       new_row 3 50 ''Pune'' 3 ''Third'' ''c'' None None], tbl_seq = 3\<rparr>"
  by (simp add: tie_db_def eval_defs new_row_def)

lemma largest_rowid_after_insert:
  "db_largest_rowid
     (Some \<lparr>tbl_rows = db_rows db @ [new_row (db_largest_rowid db + 1) now city rating title txt photo fname],
            tbl_seq = db_largest_rowid db + 1\<rparr>) = db_largest_rowid db + 1"
proof -
  have "\<forall>x\<in>set (map col_id (db_rows db)). x \<le> db_largest_rowid db + 1"
    using db_ids_le_largest [of _ db] by (fastforce simp: db_ids_def)
  then have "foldr max (map col_id (db_rows db)) (db_largest_rowid db + 1) = db_largest_rowid db + 1"
    by (rule foldr_max_bounded)
  then show ?thesis
    by (simp add: db_largest_rowid_def [of "Some _"] largest_rowid_def new_row_def)
qed

lemma apply_add_op_success:
  assumes "fits_int64 (args_rating a)" and "db_largest_rowid db < INT64_MAX"
  shows "\<exists>r. db_rows (apply_op (add_op city a) db) = db_rows db @ [r] \<and> col_city r = city \<and>
           listed_args (review_of r) = a \<and>
           db_largest_rowid (apply_op (add_op city a) db) = db_largest_rowid db + 1"
proof -
  obtain now rating title body photo fname where a: "a = (now, rating, title, body, photo, fname)"
    by (cases a)
  with assms(1) have f: "fits_int64 rating" by (simp add: args_rating_def)
  let ?r = "new_row (db_largest_rowid db + 1) now city rating title body photo fname"
  have "apply_op (add_op city a) db =
          Some \<lparr>tbl_rows = db_rows db @ [?r], tbl_seq = db_largest_rowid db + 1\<rparr>"
    by (simp add: a add_op_def add_review_success [OF f assms(2)])
  moreover have "col_city ?r = city" "listed_args (review_of ?r) = a"
    by (simp_all add: new_row_def listed_args_def review_of_def a)
  ultimately show ?thesis
    using largest_rowid_after_insert [of db now city rating title body photo fname]
    by (intro exI [of _ ?r]) simp
qed

lemma run_adds_matching:
  "list_all (\<lambda>a. fits_int64 (args_rating a)) adds \<Longrightarrow>
   db_largest_rowid db + int (length adds) \<le> INT64_MAX \<Longrightarrow>
   map (\<lambda>r. listed_args (review_of r)) (matching city (run (map (add_op city) adds) db)) =
     map (\<lambda>r. listed_args (review_of r)) (matching city db) @ adds"
proof (induction adds arbitrary: db)
  case Nil
  then show ?case by simp
next
  case (Cons a adds)
  from Cons.prems have f: "fits_int64 (args_rating a)" and room: "db_largest_rowid db < INT64_MAX"
    by simp_all
  from apply_add_op_success [OF f room, of city] obtain r where
    r: "db_rows (apply_op (add_op city a) db) = db_rows db @ [r]" "col_city r = city"
       "listed_args (review_of r) = a"
       "db_largest_rowid (apply_op (add_op city a) db) = db_largest_rowid db + 1"
    by blast
  from Cons.prems r(4) have
    "list_all (\<lambda>a. fits_int64 (args_rating a)) adds"
    "db_largest_rowid (apply_op (add_op city a) db) + int (length adds) \<le> INT64_MAX"
    by simp_all
  from Cons.IH [OF this] r(1-3) show ?case
    by (simp add: matching_def)
qed

lemma created_at_listed_args: "fst (listed_args (review_of r)) = col_created_at r"
  by (simp add: listed_args_def review_of_def)

text \<open>
  C4. For every city and every state of the store, \<open>get_reviews_for_city\<close> returns the
  reviews of the city, each once, in descending order of \<open>created_at\<close>; reviews with the
  same \<open>created_at\<close> come in the order in which they were inserted; and when the
  \<open>created_at\<close> values grow strictly in insertion order, the listing is the insertion order
  reversed. In particular, after \<open>add_review\<close> calls for a city that had no review, made at
  clock readings \<open>t1 < t2 < ... < tn\<close> and all accepted by the store, the listing shows the
  added reviews from the one added at \<open>tn\<close> down to the one added at \<open>t1\<close>.
\<close>

theorem listing_order:
  "(\<exists>rs. get_reviews_for_city city db = (Inr rs, init_reviews_db db) \<and>
       mset rs = mset (map review_of (matching city db)) \<and>
       sorted_wrt (\<lambda>a b. rv_created_at b \<le> rv_created_at a) rs \<and>
       (\<forall>t. filter (\<lambda>r. rv_created_at r = t) rs =
             map review_of (filter (\<lambda>r. col_created_at r = t) (matching city db))) \<and>
       (sorted_wrt (<) (map col_created_at (matching city db)) \<longrightarrow>
          rs = rev (map review_of (matching city db)))) \<and>
   (matching city db = [] \<and> sorted_wrt (<) (map fst adds) \<and>
    list_all (\<lambda>a. fits_int64 (args_rating a)) adds \<and>
    db_largest_rowid db + int (length adds) \<le> INT64_MAX \<longrightarrow>
      (\<exists>rs. fst (get_reviews_for_city city (run (map (add_op city) adds) db)) = Inr rs \<and>
            map listed_args rs = rev adds))"
proof (rule conjI)
  show "\<exists>rs. get_reviews_for_city city db = (Inr rs, init_reviews_db db) \<and>
       mset rs = mset (map review_of (matching city db)) \<and>
       sorted_wrt (\<lambda>a b. rv_created_at b \<le> rv_created_at a) rs \<and>
       (\<forall>t. filter (\<lambda>r. rv_created_at r = t) rs =
             map review_of (filter (\<lambda>r. col_created_at r = t) (matching city db))) \<and>
       (sorted_wrt (<) (map col_created_at (matching city db)) \<longrightarrow>
          rs = rev (map review_of (matching city db)))"
    by (rule listing_general)
next
  show "matching city db = [] \<and> sorted_wrt (<) (map fst adds) \<and>
    list_all (\<lambda>a. fits_int64 (args_rating a)) adds \<and>
    db_largest_rowid db + int (length adds) \<le> INT64_MAX \<longrightarrow>
      (\<exists>rs. fst (get_reviews_for_city city (run (map (add_op city) adds) db)) = Inr rs \<and>
            map listed_args rs = rev adds)"
  proof (intro impI, elim conjE)
    assume empty: "matching city db = []" and incr: "sorted_wrt (<) (map fst adds)"
      and fits: "list_all (\<lambda>a. fits_int64 (args_rating a)) adds"
      and room: "db_largest_rowid db + int (length adds) \<le> INT64_MAX"
    let ?D = "run (map (add_op city) adds) db"
    from run_adds_matching [OF fits room, of city] empty
    have args: "map (\<lambda>r. listed_args (review_of r)) (matching city ?D) = adds"
      by simp
    then have "map fst adds = map col_created_at (matching city ?D)"
      by (metis (no_types, lifting) map_map comp_def created_at_listed_args map_eq_conv)
    with incr have "sorted_wrt (<) (map col_created_at (matching city ?D))" by simp
    then have "order_by_created_at_desc (matching city ?D) = rev (matching city ?D)"
      by (rule order_by_created_at_desc_increasing)
    then have "fst (get_reviews_for_city city ?D) = Inr (rev (map review_of (matching city ?D)))"
      by (simp add: get_reviews_for_city_eq rev_map)
    moreover have "map listed_args (rev (map review_of (matching city ?D))) = rev adds"
      using args by (simp add: rev_map [symmetric] comp_def)
    ultimately show "\<exists>rs. fst (get_reviews_for_city city ?D) = Inr rs \<and>
            map listed_args rs = rev adds"
      by blast
  qed
qed

theorem listing_order_witness:
  "fst (get_reviews_for_city ''Pune'' tie_db) =
     Inr (map review_of
            [new_row 1 100 ''Pune'' 5 ''First'' ''a'' None None,
             new_row 2 100 ''Pune'' 4 ''Second'' ''b'' None None,
             new_row 3 50 ''Pune'' 3 ''Third'' ''c'' None None]) \<and>
   matching ''Pune'' None = [] \<and>
   sorted_wrt (<) (map fst [(100, 5, ''Great'', ''Loved it'', None, None),
                            (160 :: nat, 4 :: int, ''Nice'', ''Good food'', None :: bytes option,
                             None :: string option)]) \<and>
   list_all (\<lambda>a. fits_int64 (args_rating a))
     [(100, 5, ''Great'', ''Loved it'', None, None), (160, 4, ''Nice'', ''Good food'', None, None)] \<and>
   db_largest_rowid None + int (length [(100 :: nat, 5 :: int, ''Great'', ''Loved it'', None :: bytes option, None :: string option),
       (160, 4, ''Nice'', ''Good food'', None, None)]) \<le> INT64_MAX \<and>
   fst (get_reviews_for_city ''Pune''
          (run (map (add_op ''Pune'')
             [(100, 5, ''Great'', ''Loved it'', None, None),
              (160, 4, ''Nice'', ''Good food'', None, None)]) None)) =
     Inr [\<lparr>rv_id = 2, rv_rating = 4, rv_title = ''Nice'', rv_text = ''Good food'',
            rv_photo_data = None, rv_photo_filename = None, rv_created_at = 160\<rparr>,
          \<lparr>rv_id = 1, rv_rating = 5, rv_title = ''Great'', rv_text = ''Loved it'',
            rv_photo_data = None, rv_photo_filename = None, rv_created_at = 100\<rparr>]"
  using listing_order [of "''Pune''" tie_db "[]"]
    listing_order [of "''Pune''" None
      "[(100, 5, ''Great'', ''Loved it'', None, None), (160, 4, ''Nice'', ''Good food'', None, None)]"]
  by (simp add: tie_db_rows listing_eval_defs review_of_def matching_def db_rows_def
      args_rating_def db_largest_rowid_def add_op_def eval_defs)

subsection \<open>Ids over sequences of calls\<close>

lemma db_ok_ids: "db_ok db \<Longrightarrow> distinct (db_ids db) \<and> (\<forall>i\<in>set (db_ids db). i \<le> db_seq db)"
  by (auto simp: db_ok_def db_ids_def db_rows_def db_seq_def list_all_iff split: option.splits)

lemma db_ok_Some:
  "db_ok (Some t) = (distinct (map col_id (tbl_rows t)) \<and> (\<forall>r\<in>set (tbl_rows t). col_id r \<le> tbl_seq t))"
  by (simp add: db_ok_def list_all_iff)

lemma db_ok_init: "db_ok db \<Longrightarrow> db_ok (init_reviews_db db)"
  by (simp add: db_ok_def init_reviews_db_def split: option.splits)

lemma db_ids_init: "db_ids (init_reviews_db db) = db_ids db"
  by (simp add: db_ids_def db_rows_init)

lemma db_seq_init: "db_seq (init_reviews_db db) = db_seq db"
  by (simp add: init_reviews_db_rows_seq)

lemma add_step:
  assumes ok: "db_ok db"
  shows "db_ok (apply_op (AddReview now city rating title body photo fname) db) \<and>
    (case assigned_id (AddReview now city rating title body photo fname) db of
       None \<Rightarrow>
         db_ids (apply_op (AddReview now city rating title body photo fname) db) = db_ids db \<and>
         db_seq (apply_op (AddReview now city rating title body photo fname) db) = db_seq db
     | Some i \<Rightarrow>
         i = db_seq db + 1 \<and>
         db_ids (apply_op (AddReview now city rating title body photo fname) db) = db_ids db @ [i] \<and>
         db_seq (apply_op (AddReview now city rating title body photo fname) db) = i)"
proof (cases "fits_int64 rating \<and> db_largest_rowid db < INT64_MAX")
  case True
  note s = add_review_success [of rating db now city title body photo fname]
  from ok have L: "db_largest_rowid db = db_seq db" by (rule db_ok_largest)
  from db_ok_ids [OF ok] have d: "distinct (map col_id (db_rows db))"
    and le: "\<forall>r\<in>set (db_rows db). col_id r \<le> db_seq db"
    by (auto simp: db_ids_def)
  from le have "db_seq db + 1 \<notin> col_id ` set (db_rows db)" by fastforce
  with True d le show ?thesis
    by (auto simp: s L db_ok_Some db_ids_def new_row_def)
next
  case False
  from add_review_failure [OF False] ok show ?thesis
    by (simp add: db_ok_init db_ids_init db_seq_init)
qed

lemma delete_step:
  assumes ok: "db_ok db"
  shows "db_ok (apply_op (DeleteReview i) db) \<and>
    set (db_ids (apply_op (DeleteReview i) db)) \<subseteq> set (db_ids db) \<and>
    db_seq (apply_op (DeleteReview i) db) = db_seq db"
proof (cases "fits_int64 i")
  case True
  from db_ok_ids [OF ok] have d: "distinct (map col_id (db_rows db))"
    and le: "\<forall>r\<in>set (db_rows db). col_id r \<le> db_seq db"
    by (auto simp: db_ids_def)
  from d have "distinct (map col_id (filter (\<lambda>r. col_id r \<noteq> i) (db_rows db)))"
    by (rule distinct_map_filter)
  with le show ?thesis
    by (auto simp: delete_review_success [OF True] db_ok_Some db_ids_def)
next
  case False
  from delete_review_failure [OF False] ok show ?thesis
    by (simp add: db_ok_init db_ids_init db_seq_init)
qed

lemma run_ids:
  "db_ok db \<Longrightarrow>
     db_ok (run ops db) \<and>
     db_seq db \<le> db_seq (run ops db) \<and>
     (\<forall>i\<in>set (assigned_ids ops db). db_seq db < i \<and> i \<le> db_seq (run ops db)) \<and>
     sorted_wrt (<) (assigned_ids ops db) \<and>
     set (db_ids (run ops db)) \<subseteq> set (db_ids db) \<union> set (assigned_ids ops db)"
proof (induction ops arbitrary: db)
  case Nil
  then show ?case by simp
next
  case (Cons x ops)
  show ?case
  proof (cases x)
    case (AddReview now city rating title body photo fname)
    note st = add_step [OF Cons.prems, of now city rating title body photo fname]
    from st have ok': "db_ok (apply_op x db)" by (simp add: AddReview)
    note ih = Cons.IH [OF ok']
    show ?thesis
    proof (cases "assigned_id x db")
      case None
      with st have "db_ids (apply_op x db) = db_ids db" "db_seq (apply_op x db) = db_seq db"
        by (simp_all add: AddReview)
      with ih None show ?thesis by simp
    next
      case (Some i)
      with st have i: "i = db_seq db + 1" "db_ids (apply_op x db) = db_ids db @ [i]"
        "db_seq (apply_op x db) = i"
        by (simp_all add: AddReview)
      from ih i(1,3) have later: "\<forall>j\<in>set (assigned_ids ops (apply_op x db)). i < j"
        by simp
      from ih i Some later show ?thesis by (auto simp: Ball_def)
    qed
  next
    case (DeleteReview i)
    note st = delete_step [OF Cons.prems, of i]
    from st have ok': "db_ok (apply_op x db)" by (simp add: DeleteReview)
    note ih = Cons.IH [OF ok']
    from st ih show ?thesis by (auto simp: DeleteReview)
  qed
qed

text \<open>
  C5. Starting from any store that SQLite has written (unique ids, none above the recorded
  largest rowid; the store without a table is one), and for every sequence of
  \<open>add_review\<close> and \<open>delete_review\<close> calls: the ids that the calls assign are strictly
  increasing and differ from every id that was in the store at the start, so no id is
  assigned twice, whether or not its review has been deleted in between; the ids of the
  reviews in the store at the end are unique, and each of them was there at the start or
  was assigned by one of the calls.
\<close>

theorem ids_never_reused:
  assumes "db_ok db"
  shows "distinct (db_ids db @ assigned_ids ops db) \<and>
         sorted_wrt (<) (assigned_ids ops db) \<and>
         distinct (db_ids (run ops db)) \<and>
         set (db_ids (run ops db)) \<subseteq> set (db_ids db) \<union> set (assigned_ids ops db) \<and>
         db_ok (run ops db)"
proof -
  note r = run_ids [OF assms, of ops]
  from r have inc: "sorted_wrt (<) (assigned_ids ops db)" by simp
  then have d: "distinct (assigned_ids ops db)"
    by (simp add: strict_sorted_iff)
  from db_ok_ids [OF assms] r have disj: "set (db_ids db) \<inter> set (assigned_ids ops db) = {}"
    by fastforce
  from r have "db_ok (run ops db)" by simp
  from db_ok_ids [OF this] have "distinct (db_ids (run ops db))" by simp
  with r d disj db_ok_ids [OF assms] show ?thesis by simp
qed

theorem ids_never_reused_witness:
  "db_ok None \<and> assigned_ids add_delete_ops None = [1, 2, 3] \<and>
   db_ids (run add_delete_ops None) = [1, 3]"
  using ids_never_reused [of None add_delete_ops]
  by (simp add: add_delete_ops_def db_ok_def db_ids_def eval_defs)

subsection \<open>Visibility of an added review\<close>

lemma visible_if_stored:
  assumes "r \<in> set (db_rows db)"
  shows "visible r db"
proof -
  let ?c = "col_city r"
  from assms have m: "r \<in> set (matching ?c db)" by (simp add: matching_def)
  then have rat: "col_rating r \<in> set (ratings_of ?c db)" by (auto simp: ratings_of_def)
  then have pos: "0 < count_list (ratings_of ?c db) (col_rating r)"
    using count_list_0_iff [of "ratings_of ?c db" "col_rating r"] by simp
  from rat have ne: "0 < length (ratings_of ?c db)" by (auto simp: length_pos_if_in_set)
  from m have "review_of r \<in> set (map review_of (order_by_created_at_desc (matching ?c db)))"
    by (simp add: set_order_by_created_at_desc)
  with rat pos ne show ?thesis
    by (simp add: visible_def get_reviews_for_city_eq get_city_rating_summary_eq
        map_of_summary_of)
qed

lemma row_kept_by_op:
  assumes "r \<in> set (db_rows db)" and "x \<noteq> DeleteReview (col_id r)"
  shows "r \<in> set (db_rows (apply_op x db))"
proof (cases x)
  case (AddReview now city rating title body photo fname)
  show ?thesis
  proof (cases "fits_int64 rating \<and> db_largest_rowid db < INT64_MAX")
    case True
    with assms(1) show ?thesis by (simp add: AddReview add_review_success)
  next
    case False
    from add_review_failure [OF False] assms(1) show ?thesis
      by (simp add: AddReview db_rows_init)
  qed
next
  case (DeleteReview i)
  with assms(2) have ne: "col_id r \<noteq> i" by auto
  show ?thesis
  proof (cases "fits_int64 i")
    case True
    with assms(1) ne show ?thesis by (simp add: DeleteReview delete_review_success)
  next
    case False
    from delete_review_failure [OF False] assms(1) show ?thesis
      by (simp add: DeleteReview db_rows_init)
  qed
qed

lemma row_kept_by_run:
  "r \<in> set (db_rows db) \<Longrightarrow> DeleteReview (col_id r) \<notin> set ops \<Longrightarrow>
     r \<in> set (db_rows (run ops db))"
proof (induction ops arbitrary: db)
  case Nil
  then show ?case by simp
next
  case (Cons x ops)
  from Cons.prems have "x \<noteq> DeleteReview (col_id r)" "DeleteReview (col_id r) \<notin> set ops"
    by auto
  with Cons.IH [OF row_kept_by_op [OF Cons.prems(1)]] show ?case by simp
qed

lemma added_row_visible:
  assumes "fits_int64 rating" and "db_largest_rowid db < INT64_MAX"
  shows "\<exists>row db'.
     add_review now city rating title body photo fname db = (Inr True, db') \<and>
     row = new_row (db_largest_rowid db + 1) now city rating title body photo fname \<and>
     db_rows db' = db_rows db @ [row] \<and>
     col_id row \<notin> set (db_ids db) \<and>
     assigned_id (AddReview now city rating title body photo fname) db = Some (col_id row) \<and>
     (\<forall>ops. DeleteReview (col_id row) \<notin> set ops \<longrightarrow> visible row (run ops db'))"
proof -
  let ?row = "new_row (db_largest_rowid db + 1) now city rating title body photo fname"
  let ?db' = "Some \<lparr>tbl_rows = db_rows db @ [?row], tbl_seq = db_largest_rowid db + 1\<rparr>"
  have ret: "add_review now city rating title body photo fname db = (Inr True, ?db')"
    by (rule add_review_success [OF assms])
  have rows: "db_rows ?db' = db_rows db @ [?row]" by simp
  have fresh: "col_id ?row \<notin> set (db_ids db)"
    using db_ids_le_largest [of "col_id ?row" db] by (auto simp: new_row_def)
  have asg: "assigned_id (AddReview now city rating title body photo fname) db = Some (col_id ?row)"
    by (simp add: ret)
  have vis: "visible ?row (run ops ?db')" if "DeleteReview (col_id ?row) \<notin> set ops" for ops
    by (rule visible_if_stored, rule row_kept_by_run [OF _ that]) simp
  show ?thesis
    apply (rule exI [of _ ?row], rule exI [of _ ?db'])
    apply (intro conjI)
         apply (rule ret)
        apply (rule refl)
       apply (rule rows)
      apply (rule fresh)
     apply (rule asg)
    apply (rule allI, rule impI, erule vis)
    done
qed

text \<open>
  C1, as the claim states it, fails: \<open>add_review\<close> returns \<^verbatim>\<open>True\<close>, which in Python is
  the number 1, while the review it has just created in this store has the id 6.
\<close>

theorem add_review_returns_id_counterexample:
  "fst (add_review 420 ''Pune'' 4 ''Fine'' ''Okay'' None None pune_db) = Inr True \<and>
   assigned_id (AddReview 420 ''Pune'' 4 ''Fine'' ''Okay'' None None) pune_db = Some 6 \<and>
   (of_bool True :: int) \<noteq> 6"
  by (simp add: pune_db_rows eval_defs new_row_def)

text \<open>
  C1, amended. For every \<open>add_review\<close> call that the store accepts (the rating is a 64-bit
  integer and the ids are not used up), the value returned is \<^verbatim>\<open>True\<close>; the store gets
  one more row with the given fields, the clock reading as \<open>created_at\<close> and a new id that no
  review in the store has; and that review is in the listing and counted in the summary of
  its city after every later sequence of calls that does not delete it.
\<close>

theorem add_review_visible:
  assumes "fits_int64 rating" and "db_largest_rowid db < INT64_MAX"
  shows "\<exists>row db'.
     add_review now city rating title body photo fname db = (Inr True, db') \<and>
     row = new_row (db_largest_rowid db + 1) now city rating title body photo fname \<and>
     db_rows db' = db_rows db @ [row] \<and>
     col_id row \<notin> set (db_ids db) \<and>
     assigned_id (AddReview now city rating title body photo fname) db = Some (col_id row) \<and>
     (\<forall>ops. DeleteReview (col_id row) \<notin> set ops \<longrightarrow> visible row (run ops db'))"
  by (rule added_row_visible [OF assms])

theorem add_review_visible_witness:
  "fits_int64 4 \<and> db_largest_rowid pune_db < INT64_MAX \<and>
   add_review 420 ''Pune'' 4 ''Fine'' ''Okay'' None None pune_db =
     (Inr True,
      Some \<lparr>tbl_rows = db_rows pune_db @ [new_row 6 420 ''Pune'' 4 ''Fine'' ''Okay'' None None],
            tbl_seq = 6\<rparr>) \<and>
   DeleteReview 6 \<notin> set [DeleteReview 1, AddReview 500 ''Goa'' 1 ''No'' ''Rain'' None None] \<and>
   visible (new_row 6 420 ''Pune'' 4 ''Fine'' ''Okay'' None None)
     (run [DeleteReview 1, AddReview 500 ''Goa'' 1 ''No'' ''Rain'' None None]
        (snd (add_review 420 ''Pune'' 4 ''Fine'' ''Okay'' None None pune_db)))"
proof -
  have f: "fits_int64 4" by (simp add: fits_int64_def INT64_MAX_def)
  have L: "db_largest_rowid pune_db = 5"
    by (simp add: pune_db_rows db_largest_rowid_def largest_rowid_def new_row_def)
  then have room: "db_largest_rowid pune_db < INT64_MAX" by (simp add: INT64_MAX_def)
  from add_review_visible [OF f room, of 420 "''Pune''" "''Fine''" "''Okay''" None None]
  obtain row db' where
    r: "add_review 420 ''Pune'' 4 ''Fine'' ''Okay'' None None pune_db = (Inr True, db')"
       "row = new_row (db_largest_rowid pune_db + 1) 420 ''Pune'' 4 ''Fine'' ''Okay'' None None"
       "db_rows db' = db_rows pune_db @ [row]"
       "\<forall>ops. DeleteReview (col_id row) \<notin> set ops \<longrightarrow> visible row (run ops db')"
    by blast
  from r(2) L have row: "row = new_row 6 420 ''Pune'' 4 ''Fine'' ''Okay'' None None" by simp
  then have id: "col_id row = 6" by (simp add: new_row_def)
  have nd: "DeleteReview 6 \<notin> set [DeleteReview 1, AddReview 500 ''Goa'' 1 ''No'' ''Rain'' None None]"
    by simp
  from r(4) id nd have
    "visible row (run [DeleteReview 1, AddReview 500 ''Goa'' 1 ''No'' ''Rain'' None None] db')"
    by metis
  moreover have "add_review 420 ''Pune'' 4 ''Fine'' ''Okay'' None None pune_db =
     (Inr True,
      Some \<lparr>tbl_rows = db_rows pune_db @ [new_row 6 420 ''Pune'' 4 ''Fine'' ''Okay'' None None],
            tbl_seq = 6\<rparr>)"
    using add_review_success [OF f room, of 420 "''Pune''" "''Fine''" "''Okay''" None None] L
    by simp
  ultimately show ?thesis using f room nd r(1) row by simp
qed

subsection \<open>A photo that cannot be decoded\<close>

lemma process_photo_undecodable: "image_open lib raw = None \<Longrightarrow> process_photo lib raw = None"
  by (simp add: process_photo_def)

text \<open>
  C3. When the form is submitted with a title and a text that are not blank and with photo
  data that Pillow cannot open, the handler warns about the image and still calls
  \<open>add_review\<close>, with no photo data and with the file name of the upload. The store accepting
  the insert (the ids are not used up; the rating comes from the form's choice of 1 to 5),
  the review is created without photo data and is in the listing and the summary of its
  city after every later sequence of calls that does not delete it.
\<close>

theorem undecodable_photo_still_adds:
  assumes "image_open lib raw = None"
    and "py_strip review_title \<noteq> []" and "py_strip review_text \<noteq> []"
    and "star_rating \<in> {1, 2, 3, 4, 5}"
    and "db_largest_rowid db < INT64_MAX"
  shows "\<exists>row db'.
     submit_review lib now city star_rating review_title review_text (Some raw) photo_filename db =
       ([Warning_could_not_process_image, Success_submitted], db') \<and>
     row = new_row (db_largest_rowid db + 1) now city star_rating review_title review_text None
             photo_filename \<and>
     db_rows db' = db_rows db @ [row] \<and>
     col_photo_data row = None \<and>
     rv_photo_data (review_of row) = None \<and>
     (\<forall>ops. DeleteReview (col_id row) \<notin> set ops \<longrightarrow> visible row (run ops db'))"
proof -
  from assms(4) have f: "fits_int64 star_rating"
    by (auto simp: fits_int64_def INT64_MAX_def)
  from added_row_visible [OF f assms(5), of now city review_title review_text None photo_filename]
  obtain row db' where
    r: "add_review now city star_rating review_title review_text None photo_filename db =
          (Inr True, db')"
       "row = new_row (db_largest_rowid db + 1) now city star_rating review_title review_text None
                photo_filename"
       "db_rows db' = db_rows db @ [row]"
       "\<forall>ops. DeleteReview (col_id row) \<notin> set ops \<longrightarrow> visible row (run ops db')"
    by blast
  have sub: "submit_review lib now city star_rating review_title review_text (Some raw)
               photo_filename db = ([Warning_could_not_process_image, Success_submitted], db')"
    using assms(2,3) process_photo_undecodable [OF assms(1)] r(1)
    by (simp add: submit_review_def)
  from r(2) have np: "col_photo_data row = None" "rv_photo_data (review_of row) = None"
    by (simp_all add: new_row_def review_of_def)
  from sub r(2,3) np r(4) show ?thesis by blast
qed

theorem undecodable_photo_still_adds_witness:
  "image_open bitmap_only ''not an image'' = None \<and>
   py_strip ''Fine'' \<noteq> [] \<and> py_strip '' Okay '' \<noteq> [] \<and>
   (4::int) \<in> {1, 2, 3, 4, 5} \<and> db_largest_rowid pune_db < INT64_MAX \<and>
   submit_review bitmap_only 420 ''Pune'' 4 ''Fine'' '' Okay '' (Some ''not an image'')
       (Some ''holiday.png'') pune_db =
     ([Warning_could_not_process_image, Success_submitted],
      Some \<lparr>tbl_rows = db_rows pune_db @
               [new_row 6 420 ''Pune'' 4 ''Fine'' '' Okay '' None (Some ''holiday.png'')],
            tbl_seq = 6\<rparr>)"
proof -
  have a: "image_open bitmap_only ''not an image'' = None" by (simp add: bitmap_only_def)
  have b: "py_strip ''Fine'' \<noteq> []" "py_strip '' Okay '' \<noteq> []"
    by (simp_all add: py_strip_def py_isspace_def)
  have c: "(4::int) \<in> {1, 2, 3, 4, 5}" by simp
  have L: "db_largest_rowid pune_db = 5"
    by (simp add: pune_db_rows db_largest_rowid_def largest_rowid_def new_row_def)
  then have d: "db_largest_rowid pune_db < INT64_MAX" by (simp add: INT64_MAX_def)
  from undecodable_photo_still_adds [OF a b c d, of 420 "''Pune''" "Some ''holiday.png''"]
  obtain row db' where
    r: "submit_review bitmap_only 420 ''Pune'' 4 ''Fine'' '' Okay '' (Some ''not an image'')
          (Some ''holiday.png'') pune_db =
          ([Warning_could_not_process_image, Success_submitted], db')"
       "row = new_row (db_largest_rowid pune_db + 1) 420 ''Pune'' 4 ''Fine'' '' Okay '' None
                (Some ''holiday.png'')"
       "db_rows db' = db_rows pune_db @ [row]"
    by blast
  have "snd (submit_review bitmap_only 420 ''Pune'' 4 ''Fine'' '' Okay '' (Some ''not an image'')
          (Some ''holiday.png'') pune_db) =
        Some \<lparr>tbl_rows = db_rows pune_db @
               [new_row 6 420 ''Pune'' 4 ''Fine'' '' Okay '' None (Some ''holiday.png'')],
            tbl_seq = 6\<rparr>"
    using b a d L
    by (simp add: submit_review_def process_photo_def add_review_success fits_int64_def
        INT64_MAX_def)
  with r(1) a b c d show ?thesis by simp
qed

end
